theory Spec2Isabelle
  imports Complex_Main "HOL-Library.Log_Nat"
begin

section \<open>Python values used by the two drivers\<close>

text \<open>
  The exceptions that the modelled code can raise. A computation that may raise has the
  type \<open>py_error + 'a\<close>, with \<open>Inl\<close> for the exception.
\<close>

datatype py_error = FileNotFoundError | ParseError | TypeError | ValueError | OverflowError

subsection \<open>Floats\<close>

text \<open>
  A Python \<open>float\<close> is an IEEE 754 binary64 value: a finite value (given here as the
  real number it denotes), an infinity or a NaN. Arithmetic on finite values computes the
  exact result and rounds it to the nearest binary64 value, ties to the even significand.
\<close>

datatype float64 = Finite real | PosInf | NegInf | NaN

definition round_half_even :: "real \<Rightarrow> int" where
  "round_half_even x =
     (let f = \<lfloor>x\<rfloor>; d = x - of_int f
      in if d < 1 / 2 then f else if 1 / 2 < d then f + 1 else if even f then f else f + 1)"

text \<open>\<open>ilog2 x\<close> is the binary exponent of a positive \<open>x\<close>: \<open>2 ^ e \<le> x < 2 ^ (e + 1)\<close>.\<close>

definition ilog2 :: "real \<Rightarrow> int" where
  "ilog2 x = (if 1 \<le> x then bitlen \<lfloor>x\<rfloor> - 1 else - bitlen (\<lceil>1 / x\<rceil> - 1))"

text \<open>
  The spacing of binary64 values around \<open>x\<close> is \<open>2 ^ (e - 52)\<close> (53 significant bits),
  and \<open>2 ^ (- 1074)\<close> in the subnormal range.
\<close>

definition ulp_exponent :: "real \<Rightarrow> int" where
  "ulp_exponent x = max (ilog2 \<bar>x\<bar>) (- 1022) - 52"

definition round_binary64 :: "real \<Rightarrow> real" where
  "round_binary64 x =
     (if x = 0 then 0
      else let u = 2 powi ulp_exponent x in of_int (round_half_even (x / u)) * u)"

text \<open>A rounded result of magnitude \<open>2 ^ 1024\<close> or more overflows to an infinity.\<close>

definition round_result :: "real \<Rightarrow> float64" where
  "round_result x =
     (let y = round_binary64 x
      in if 2 ^ 1024 \<le> y then PosInf else if y \<le> - (2 ^ 1024) then NegInf else Finite y)"

definition float_sgn :: "float64 \<Rightarrow> int" where
  "float_sgn x = (case x of Finite a \<Rightarrow> (if a = 0 then 0 else if 0 < a then 1 else - 1)
                  | PosInf \<Rightarrow> 1 | NegInf \<Rightarrow> - 1 | NaN \<Rightarrow> 0)"

text \<open>\<open>x * y\<close> on floats.\<close>

definition float_mul :: "float64 \<Rightarrow> float64 \<Rightarrow> float64" where
  "float_mul x y =
     (case (x, y) of
        (Finite a, Finite b) \<Rightarrow> round_result (a * b)
      | _ \<Rightarrow> if x = NaN \<or> y = NaN then NaN
             else let s = float_sgn x * float_sgn y
                  in if s = 0 then NaN else if 0 < s then PosInf else NegInf)"

text \<open>\<open>x + y\<close> on floats.\<close>

definition float_add :: "float64 \<Rightarrow> float64 \<Rightarrow> float64" where
  "float_add x y =
     (case (x, y) of
        (Finite a, Finite b) \<Rightarrow> round_result (a + b)
      | _ \<Rightarrow> if x = NaN \<or> y = NaN then NaN
             else if (x = PosInf \<and> y = NegInf) \<or> (x = NegInf \<and> y = PosInf) then NaN
             else if x = PosInf \<or> y = PosInf then PosInf else NegInf)"

text \<open>\<open>x < y\<close> on floats: false whenever an operand is a NaN.\<close>

definition float_lt :: "float64 \<Rightarrow> float64 \<Rightarrow> bool" where
  "float_lt x y =
     (if x = NaN \<or> y = NaN then False
      else case (x, y) of
             (Finite a, Finite b) \<Rightarrow> a < b
           | _ \<Rightarrow> (x = NegInf \<and> y \<noteq> NegInf) \<or> (y = PosInf \<and> x \<noteq> PosInf))"

text \<open>
  The conversion of the \<open>int\<close> operand of \<open>int * float\<close>: correctly rounded, and
  \<open>OverflowError\<close> when the integer is too large for a float.
\<close>

definition float_of_int :: "int \<Rightarrow> py_error + float64" where
  "float_of_int n =
     (case round_result (of_int n) of Finite x \<Rightarrow> Inr (Finite x) | _ \<Rightarrow> Inl OverflowError)"

text \<open>\<open>int(x)\<close> on a float truncates towards zero; it raises on an infinity or a NaN.\<close>

definition py_int :: "float64 \<Rightarrow> py_error + int" where
  "py_int x =
     (case x of
        Finite a \<Rightarrow> Inr (if 0 \<le> a then \<lfloor>a\<rfloor> else \<lceil>a\<rceil>)
      | NaN \<Rightarrow> Inl ValueError
      | _ \<Rightarrow> Inl OverflowError)"

subsection \<open>Decimal rendering: \<open>str\<close> on integers\<close>

fun str_nat :: "nat \<Rightarrow> string" where
  "str_nat n =
     (if n < 10 then [''0123456789'' ! n]
      else str_nat (n div 10) @ [''0123456789'' ! (n mod 10)])"

declare str_nat.simps [simp del]

definition str_int :: "int \<Rightarrow> string" where
  "str_int i = (if i < 0 then CHR ''-'' # str_nat (nat (- i)) else str_nat (nat i))"

section \<open>The signal-plan generator (\<open>generate_tl_program\<close>)\<close>

text \<open>
  The document is the element tree that the function builds: the root \<open>additional\<close> holds
  one \<open>tlLogic\<close> element per intersection, each with its attributes and its \<open>phase\<close>
  children in document order. Attribute values are strings, as in the source.
\<close>

record phase =
  duration :: string
  state :: string

record tlLogic =
  tl_id :: string
  tl_type :: string
  programID :: string
  offset :: string
  phases :: "phase list"

type_synonym additional = "tlLogic list"

text \<open>The files that hold signal plans, by path.\<close>

type_synonym plan_files = "string \<rightharpoonup> additional"

text \<open>
  Lines 32 to 34: \<open>cycle_length\<close> is a Python \<open>int\<close>, \<open>ns_green_ratio\<close> a float. The
  result is the pair \<open>(ns_green_time, ew_green_time)\<close>.
\<close>

definition phase_durations :: "int \<Rightarrow> float64 \<Rightarrow> py_error + int \<times> int" where
  "phase_durations cycle_length ns_green_ratio =
     (let green_time = cycle_length - 6
      in case float_of_int green_time of
           Inl e \<Rightarrow> Inl e
         | Inr g \<Rightarrow>
             (case py_int (float_mul g ns_green_ratio) of
                Inl e \<Rightarrow> Inl e
              | Inr ns_green_time \<Rightarrow> Inr (ns_green_time, green_time - ns_green_time)))"

text \<open>Lines 43 to 51: the \<open>tlLogic\<close> element of one intersection.\<close>

definition tl_logic :: "string \<Rightarrow> int \<Rightarrow> int \<Rightarrow> tlLogic" where
  "tl_logic i ns_green_time ew_green_time =
     \<lparr>tl_id = i, tl_type = ''static'', programID = ''bo_plan'', offset = ''0'',
      phases =
        [\<lparr>duration = str_int ns_green_time, state = ''GGggrrrrGGggrrrr''\<rparr>,
         \<lparr>duration = ''3'', state = ''yyyyrrrryyyyrrrr''\<rparr>,
         \<lparr>duration = str_int ew_green_time, state = ''rrrrGGggrrrrGGgg''\<rparr>,
         \<lparr>duration = ''3'', state = ''rrrryyyyrrrryyyy''\<rparr>]\<rparr>"

text \<open>Lines 37 to 51: the two nested loops over \<open>range(3)\<close>.\<close>

definition tl_document :: "int \<Rightarrow> int \<Rightarrow> additional" where
  "tl_document ns_green_time ew_green_time =
     concat (map (\<lambda>i. map (\<lambda>j. tl_logic (''J_'' @ str_nat i @ ''_'' @ str_nat j)
                                    ns_green_time ew_green_time) [0..<3]) [0..<3])"

text \<open>
  The whole function: an exception of line 33 leaves the files as they are; otherwise the
  document replaces whatever \<open>file_path\<close> held (\<open>tree.write\<close> opens the file for writing).
\<close>

definition generate_tl_program ::
  "int \<Rightarrow> float64 \<Rightarrow> string \<Rightarrow> plan_files \<Rightarrow> py_error + plan_files" where
  "generate_tl_program cycle_length ns_green_ratio file_path fs =
     (case phase_durations cycle_length ns_green_ratio of
        Inl e \<Rightarrow> Inl e
      | Inr (ns_green_time, ew_green_time) \<Rightarrow>
          Inr (fs(file_path \<mapsto> tl_document ns_green_time ew_green_time)))"

text \<open>The duration attributes of a document, per intersection, in phase order.\<close>

definition durations :: "additional \<Rightarrow> string list list" where
  "durations doc = map (\<lambda>tl. map duration (phases tl)) doc"

text \<open>
  The search space of lines 113 to 116: \<open>Integer(low=20, high=120)\<close> and
  \<open>Real(low=0.3, high=0.7)\<close>. The literals \<open>0.3\<close> and \<open>0.7\<close> denote the binary64 values
  nearest to the decimal fractions; the range below covers the bounds under both readings.
\<close>

definition cycle_length_in_range :: "int \<Rightarrow> bool" where
  "cycle_length_in_range c = (20 \<le> c \<and> c \<le> 120)"

definition ns_green_ratio_in_range :: "real \<Rightarrow> bool" where
  "ns_green_ratio_in_range r =
     (min (round_binary64 (3 / 10)) (3 / 10) \<le> r \<and> r \<le> max (round_binary64 (7 / 10)) (7 / 10))"

section \<open>Configuration shared by the two drivers\<close>

definition MAX_SIM_STEPS :: nat where
  "MAX_SIM_STEPS = 3600"

definition SCENARIOS :: "string list" where
  "SCENARIOS = [''grid_normal.sumocfg'', ''grid_highstress.sumocfg'', ''grid_disrupted.sumocfg'']"

text \<open>\<open>checkBinary('sumo')\<close> with \<open>GUI = False\<close>: the name of the simulator's executable.\<close>

definition sumo_binary :: string where
  "sumo_binary = ''sumo''"

section \<open>The trip report and its parsing\<close>

text \<open>
  What \<open>ET.parse("temp_tripinfo.xml")\<close> can meet: no file, a file that is not well-formed
  XML, or a document, given by the children of its root in document order. Of an element
  the code reads the tag and the attribute \<open>waitingTime\<close> only. The attribute is modelled
  by what \<open>float(trip.get('waitingTime'))\<close> does with it: the attribute is absent
  (\<open>get\<close> returns \<open>None\<close>), its text is not a number, or its text denotes a finite number
  of seconds.
\<close>

datatype waiting_attr = Seconds real | Missing | NotNumeric

record element =
  tag :: string
  waitingTime :: waiting_attr

datatype xml_file = NoFile | NotWellFormed | Xml "element list"

definition ET_parse :: "xml_file \<Rightarrow> py_error + element list" where
  "ET_parse f =
     (case f of NoFile \<Rightarrow> Inl FileNotFoundError
      | NotWellFormed \<Rightarrow> Inl ParseError
      | Xml tree_root \<Rightarrow> Inr tree_root)"

definition findall :: "string \<Rightarrow> element list \<Rightarrow> element list" where
  "findall t tree_root = filter (\<lambda>e. tag e = t) tree_root"

definition py_float :: "waiting_attr \<Rightarrow> py_error + real" where
  "py_float a =
     (case a of Seconds w \<Rightarrow> Inr w | Missing \<Rightarrow> Inl TypeError | NotNumeric \<Rightarrow> Inl ValueError)"

text \<open>
  The list comprehension \<open>[float(trip.get('waitingTime')) for trip in ...]\<close>: elements are
  converted in order and the first failing conversion raises.
\<close>

fun wait_times :: "element list \<Rightarrow> py_error + real list" where
  "wait_times [] = Inr []"
| "wait_times (trip # trips) =
     (case py_float (waitingTime trip) of
        Inl e \<Rightarrow> Inl e
      | Inr w \<Rightarrow> (case wait_times trips of Inl e \<Rightarrow> Inl e | Inr ws \<Rightarrow> Inr (w # ws)))"

text \<open>
  \<open>np.mean\<close> on a list of floats: numpy turns the list into a binary64 array, adds its
  elements with \<open>add.reduce\<close> and divides the sum by the number of elements, every
  addition and the division rounded to binary64. The additions follow numpy's pairwise
  summation. Fewer than 8 elements are added from left to right, starting from 0. Up to
  128 elements are added into 8 accumulators, element \<open>i\<close> into accumulator \<open>i mod 8\<close>,
  over the longest prefix whose length is a multiple of 8; the accumulators are combined
  as a balanced tree and the remaining elements added one by one. A longer array is split
  at half its length, rounded down to a multiple of 8, and the sums of the two parts are
  added.
\<close>

function accumulate8 :: "float64 list \<Rightarrow> nat \<Rightarrow> float64 list \<Rightarrow> float64 list" where
  "accumulate8 a i r =
     (if i < length a - length a mod 8
      then accumulate8 a (i + 8) (map (\<lambda>j. float_add (r ! j) (a ! (i + j))) [0..<8])
      else r)"
  by pat_completeness auto
termination
  by (relation "measure (\<lambda>(a, i, r). length a - i)") auto

declare accumulate8.simps [simp del]

function pairwise_sum :: "float64 list \<Rightarrow> float64" where
  "pairwise_sum a =
     (if length a < 8 then foldl float_add (Finite 0) a
      else if length a \<le> 128 then
        (let r = accumulate8 a 8 (take 8 a);
             res = float_add (float_add (float_add (r ! 0) (r ! 1)) (float_add (r ! 2) (r ! 3)))
                     (float_add (float_add (r ! 4) (r ! 5)) (float_add (r ! 6) (r ! 7)))
         in foldl float_add res (drop (length a - length a mod 8) a))
      else
        (let n2 = length a div 2 - (length a div 2) mod 8
         in float_add (pairwise_sum (take n2 a)) (pairwise_sum (drop n2 a))))"
  by pat_completeness auto
termination
  by (relation "measure length") auto

declare pairwise_sum.simps [simp del]

text \<open>
  The mean of an empty array is \<open>0.0 / 0\<close>, a NaN; the count of a non-empty one is exact
  as a float, and an infinite or NaN sum stays what it is when divided by it.
\<close>

definition np_mean :: "real list \<Rightarrow> float64" where
  "np_mean ws =
     (if ws = [] then NaN
      else case pairwise_sum (map Finite ws) of
             Finite s \<Rightarrow> round_result (s / real (length ws))
           | x \<Rightarrow> x)"

text \<open>
  Lines 91 to 101 of \<open>bayesian_optimization.py\<close>: the body of the \<open>try\<close>, then the
  \<open>except (FileNotFoundError, ET.ParseError)\<close> clause around it. A score is the penalty, a
  Python \<open>int\<close>, or the mean, a numpy float; both are given as floats, the penalties
  being exactly representable.
\<close>

definition scenario_score_try :: "xml_file \<Rightarrow> py_error + float64" where
  "scenario_score_try f =
     (case ET_parse f of
        Inl e \<Rightarrow> Inl e
      | Inr tree_root \<Rightarrow>
          (case wait_times (findall ''tripinfo'' tree_root) of
             Inl e \<Rightarrow> Inl e
           | Inr wait_time \<Rightarrow>
               if wait_time = [] then Inr (Finite (real (MAX_SIM_STEPS * 10)))
               else Inr (np_mean wait_time)))"

definition scenario_score :: "xml_file \<Rightarrow> py_error + float64" where
  "scenario_score f =
     (case scenario_score_try f of
        Inl e \<Rightarrow>
          if e = FileNotFoundError \<or> e = ParseError
          then Inr (Finite (real (MAX_SIM_STEPS * 10)))
          else Inl e
      | Inr v \<Rightarrow> Inr v)"

text \<open>Lines 45 to 51 of \<open>final_evaluation.py\<close>, in the same way.\<close>

definition run_single_evaluation_try :: "xml_file \<Rightarrow> py_error + float64" where
  "run_single_evaluation_try f =
     (case ET_parse f of
        Inl e \<Rightarrow> Inl e
      | Inr tree_root \<Rightarrow>
          (case wait_times (findall ''tripinfo'' tree_root) of
             Inl e \<Rightarrow> Inl e
           | Inr ws \<Rightarrow> Inr (if ws \<noteq> [] then np_mean ws else Finite (real MAX_SIM_STEPS))))"

definition run_single_evaluation_result :: "xml_file \<Rightarrow> py_error + float64" where
  "run_single_evaluation_result f =
     (case run_single_evaluation_try f of
        Inl e \<Rightarrow>
          if e = FileNotFoundError \<or> e = ParseError then Inr (Finite (real MAX_SIM_STEPS))
          else Inl e
      | Inr v \<Rightarrow> Inr v)"

text \<open>
  The degenerate reports: the file is absent, is not well-formed, or holds no \<open>tripinfo\<close>
  record.
\<close>

definition degenerate :: "xml_file \<Rightarrow> bool" where
  "degenerate f =
     (case f of NoFile \<Rightarrow> True | NotWellFormed \<Rightarrow> True
      | Xml tree_root \<Rightarrow> findall ''tripinfo'' tree_root = [])"

section \<open>The external simulator\<close>

text \<open>
  The simulator is not part of the repository. A session is a state of some type \<open>'s\<close>:
  \<open>traci.start\<close> creates it from the command line and the plan files the command names,
  \<open>traci.simulationStep\<close> advances it, \<open>traci.simulation.getMinExpectedNumber\<close> queries it,
  and \<open>traci.close\<close> ends it, after which \<open>temp_tripinfo.xml\<close> is what \<open>close\<close> returns.
  Every call is taken to return.
\<close>

record 's traci =
  start :: "string list \<Rightarrow> plan_files \<Rightarrow> 's"
  simulationStep :: "'s \<Rightarrow> 's"
  getMinExpectedNumber :: "'s \<Rightarrow> int"
  close :: "'s \<Rightarrow> xml_file"

text \<open>
  An observer that counts the calls of \<open>simulationStep\<close> of a session and changes nothing
  else.
\<close>

definition counting :: "'s traci \<Rightarrow> ('s \<times> nat) traci" where
  "counting sim =
     \<lparr>start = (\<lambda>cmd fs. (start sim cmd fs, 0)),
      simulationStep = (\<lambda>(s, n). (simulationStep sim s, Suc n)),
      getMinExpectedNumber = (\<lambda>(s, n). getMinExpectedNumber sim s),
      close = (\<lambda>(s, n). close sim s)\<rparr>"

section \<open>The stepping loops\<close>

text \<open>
  Lines 80 to 86 of \<open>bayesian_optimization.py\<close>. The result is the session when the loop
  is left, by \<open>break\<close> or by the loop condition.
\<close>

function objective_function_loop :: "'s traci \<Rightarrow> nat \<Rightarrow> 's \<Rightarrow> 's" where
  "objective_function_loop sim step s =
     (if step < MAX_SIM_STEPS then
        (let s' = simulationStep sim s
         in if getMinExpectedNumber sim s' = 0 \<and> 100 < step then s'
            else objective_function_loop sim (step + 1) s')
      else s)"
  by pat_completeness auto
termination
  by (relation "measure (\<lambda>(sim, step, s). MAX_SIM_STEPS - step)") auto

declare objective_function_loop.simps [simp del]

text \<open>Lines 38 to 41 of \<open>final_evaluation.py\<close>.\<close>

function run_single_evaluation_loop :: "'s traci \<Rightarrow> nat \<Rightarrow> 's \<Rightarrow> 's" where
  "run_single_evaluation_loop sim step s =
     (if 0 < getMinExpectedNumber sim s \<and> step < MAX_SIM_STEPS then
        run_single_evaluation_loop sim (step + 1) (simulationStep sim s)
      else s)"
  by pat_completeness auto
termination
  by (relation "measure (\<lambda>(sim, step, s). MAX_SIM_STEPS - step)") auto

declare run_single_evaluation_loop.simps [simp del]

section \<open>The resilience objective (\<open>objective_function\<close>)\<close>

definition sumo_cmd :: "string \<Rightarrow> string \<Rightarrow> string list" where
  "sumo_cmd scenario_cfg tl_program_file =
     [sumo_binary, ''-c'', scenario_cfg, ''-a'', tl_program_file,
      ''--tripinfo-output'', ''temp_tripinfo.xml'', ''--no-warnings'', ''true'']"

text \<open>Lines 70 to 101: one scenario, from \<open>traci.start\<close> to its score.\<close>

definition run_scenario :: "'s traci \<Rightarrow> plan_files \<Rightarrow> string \<Rightarrow> py_error + float64" where
  "run_scenario sim fs scenario_cfg =
     scenario_score
       (close sim (objective_function_loop sim 0
          (start sim (sumo_cmd scenario_cfg ''temp_tls.add.xml'') fs)))"

text \<open>
  Lines 69 to 103: the loop over the scenarios, appending each score; an exception leaves
  the loop at once.
\<close>

fun scenario_loop ::
  "'s traci \<Rightarrow> plan_files \<Rightarrow> string list \<Rightarrow> float64 list \<Rightarrow> py_error + float64 list" where
  "scenario_loop sim fs [] scenario_scores = Inr scenario_scores"
| "scenario_loop sim fs (scenario_cfg # rest) scenario_scores =
     (case run_scenario sim fs scenario_cfg of
        Inl e \<Rightarrow> Inl e
      | Inr sc \<Rightarrow> scenario_loop sim fs rest (scenario_scores @ [sc]))"

text \<open>
  The builtin \<open>max\<close> on a list: \<open>ValueError\<close> on an empty one; otherwise it keeps the
  first element and replaces it by each later element that is greater.
\<close>

definition py_max :: "float64 list \<Rightarrow> py_error + float64" where
  "py_max xs =
     (case xs of [] \<Rightarrow> Inl ValueError
      | x # ys \<Rightarrow> Inr (foldl (\<lambda>m y. if float_lt m y then y else m) x ys))"

definition objective_function ::
  "'s traci \<Rightarrow> int \<times> float64 \<Rightarrow> plan_files \<Rightarrow> py_error + float64" where
  "objective_function sim params fs =
     (case params of
        (cycle_length, ns_green_ratio) \<Rightarrow>
          (case generate_tl_program cycle_length ns_green_ratio ''temp_tls.add.xml'' fs of
             Inl e \<Rightarrow> Inl e
           | Inr fs' \<Rightarrow>
               (case scenario_loop sim fs' SCENARIOS [] of
                  Inl e \<Rightarrow> Inl e
                | Inr scenario_scores \<Rightarrow> py_max scenario_scores)))"

section \<open>One final evaluation (\<open>run_single_evaluation\<close>)\<close>

text \<open>
  \<open>plan_file\<close> is \<open>None\<close> or a string; \<open>if plan_file:\<close> holds for a non-empty string. The
  arguments \<open>scenario_name\<close> and \<open>plan_name\<close> are not used by the function.
\<close>

definition final_sumo_cmd :: "string \<Rightarrow> string option \<Rightarrow> string list" where
  "final_sumo_cmd scenario_cfg plan_file =
     [sumo_binary, ''-c'', scenario_cfg, ''--tripinfo-output'', ''temp_tripinfo.xml'',
      ''--no-warnings'', ''true'']
     @ (case plan_file of None \<Rightarrow> [] | Some p \<Rightarrow> if p \<noteq> [] then [''-a'', p] else [])"

definition run_single_evaluation ::
  "'s traci \<Rightarrow> string \<Rightarrow> string option \<Rightarrow> plan_files \<Rightarrow> py_error + float64" where
  "run_single_evaluation sim scenario_cfg plan_file fs =
     run_single_evaluation_result
       (close sim (run_single_evaluation_loop sim 0
          (start sim (final_sumo_cmd scenario_cfg plan_file) fs)))"

section \<open>Simulators and reports used as concrete inputs\<close>

definition trip :: "real \<Rightarrow> element" where
  "trip w = \<lparr>tag = ''tripinfo'', waitingTime = Seconds w\<rparr>"

text \<open>
  A session that is its scenario's name: the network is empty from the start, and the
  report holds one trip whose waiting time depends on the scenario.
\<close>

definition scripted_sim :: "string traci" where
  "scripted_sim =
     \<lparr>start = (\<lambda>cmd fs. cmd ! 2),
      simulationStep = (\<lambda>s. s),
      getMinExpectedNumber = (\<lambda>s. 0),
      close = (\<lambda>s. if s = ''grid_normal.sumocfg'' then Xml [trip 10]
                    else if s = ''grid_highstress.sumocfg'' then Xml [trip 50]
                    else Xml [trip 20])\<rparr>"

text \<open>
  A session that is the simulation time: no vehicle is known before the first step (the
  first departures are loaded later), three are expected from step 1 to step 49, and the
  network is empty from then on.
\<close>

definition late_traffic_sim :: "nat traci" where
  "late_traffic_sim =
     \<lparr>start = (\<lambda>cmd fs. 0),
      simulationStep = Suc,
      getMinExpectedNumber = (\<lambda>t. if t = 0 then 0 else if t < 50 then 3 else 0),
      close = (\<lambda>t. Xml [])\<rparr>"

text \<open>A session in which a vehicle is always expected.\<close>

definition congested_sim :: "unit traci" where
  "congested_sim =
     \<lparr>start = (\<lambda>cmd fs. ()),
      simulationStep = (\<lambda>s. s),
      getMinExpectedNumber = (\<lambda>s. 1),
      close = (\<lambda>s. Xml [])\<rparr>"

section \<open>Rounding to binary64: bounds by representable values\<close>

lemma round_half_even_le: "x \<le> of_int k \<Longrightarrow> round_half_even x \<le> k"
proof -
  assume a: "x \<le> of_int k"
  have f: "\<lfloor>x\<rfloor> \<le> k" using a by (simp add: floor_le_iff)
  show ?thesis
  proof (cases "x = of_int \<lfloor>x\<rfloor>")
    case True
    then show ?thesis using f by (simp add: round_half_even_def Let_def)
  next
    case False
    then have "of_int \<lfloor>x\<rfloor> < x" by linarith
    then have "\<lfloor>x\<rfloor> < k" using a by linarith
    then show ?thesis by (simp add: round_half_even_def Let_def)
  qed
qed

lemma round_half_even_ge: "of_int k \<le> x \<Longrightarrow> k \<le> round_half_even x"
proof -
  assume a: "of_int k \<le> x"
  then have "k \<le> \<lfloor>x\<rfloor>" by (simp add: le_floor_iff)
  then show ?thesis by (simp add: round_half_even_def Let_def)
qed

lemma ilog2_le: "0 < x \<Longrightarrow> x < 2 ^ n \<Longrightarrow> 1 \<le> n \<Longrightarrow> ilog2 x \<le> int n - 1"
proof (cases "1 \<le> x")
  case True
  assume "x < 2 ^ n"
  then have "\<lfloor>x\<rfloor> < 2 ^ n" by (simp add: floor_less_iff)
  then have "bitlen \<lfloor>x\<rfloor> \<le> int n" by (simp add: bitlen_le_iff_power)
  then show ?thesis using True by (simp add: ilog2_def)
next
  case False
  assume "1 \<le> n"
  then show ?thesis using False bitlen_nonneg [of "\<lceil>1 / x\<rceil> - 1"] by (simp add: ilog2_def)
qed

lemma round_binary64_scaled:
  assumes "x \<noteq> 0" "\<bar>x\<bar> < 2 ^ n" "1 \<le> n" "n \<le> 53"
  shows "\<exists>j. 53 \<le> j + n \<and> round_binary64 x = of_int (round_half_even (x * 2 ^ j)) / 2 ^ j"
proof -
  have "ilog2 \<bar>x\<bar> \<le> int n - 1" using assms by (intro ilog2_le) auto
  then have u: "ulp_exponent x \<le> int n - 53" using assms by (simp add: ulp_exponent_def)
  define j where "j = nat (- ulp_exponent x)"
  have j: "ulp_exponent x = - int j" using u assms by (simp add: j_def)
  have "53 \<le> j + n" using u j by linarith
  moreover have "round_binary64 x = of_int (round_half_even (x * 2 ^ j)) / 2 ^ j"
    using assms(1) by (simp add: round_binary64_def Let_def j power_int_minus divide_inverse)
  ultimately show ?thesis by blast
qed

lemma round_binary64_le:
  assumes "\<bar>x\<bar> < 2 ^ n" "1 \<le> n" "n + m \<le> 53" "x \<le> of_int k / 2 ^ m"
  shows "round_binary64 x \<le> of_int k / 2 ^ m"
proof (cases "x = 0")
  case True
  then show ?thesis using assms by (simp add: round_binary64_def)
next
  case False
  then obtain j where j: "53 \<le> j + n"
    and r: "round_binary64 x = of_int (round_half_even (x * 2 ^ j)) / 2 ^ j"
    using round_binary64_scaled [of x n] assms by auto
  have mj: "m \<le> j" using j assms by linarith
  then have p: "(2::real) ^ j = 2 ^ m * 2 ^ (j - m)" by (simp flip: power_add)
  have "x * 2 ^ j \<le> (of_int k / 2 ^ m) * 2 ^ j"
    using assms(4) by (rule mult_right_mono) simp
  also have "\<dots> = of_int (k * 2 ^ (j - m))" by (simp add: p)
  finally have "round_half_even (x * 2 ^ j) \<le> k * 2 ^ (j - m)" by (rule round_half_even_le)
  then have "real_of_int (round_half_even (x * 2 ^ j)) \<le> of_int (k * 2 ^ (j - m))"
    by (simp only: of_int_le_iff)
  then have "round_binary64 x \<le> of_int (k * 2 ^ (j - m)) / 2 ^ j"
    unfolding r by (simp add: divide_right_mono)
  also have "\<dots> = of_int k / 2 ^ m" by (simp add: p)
  finally show ?thesis .
qed

lemma round_binary64_ge:
  assumes "\<bar>x\<bar> < 2 ^ n" "1 \<le> n" "n + m \<le> 53" "of_int k / 2 ^ m \<le> x"
  shows "of_int k / 2 ^ m \<le> round_binary64 x"
proof (cases "x = 0")
  case True
  then show ?thesis using assms by (simp add: round_binary64_def)
next
  case False
  then obtain j where j: "53 \<le> j + n"
    and r: "round_binary64 x = of_int (round_half_even (x * 2 ^ j)) / 2 ^ j"
    using round_binary64_scaled [of x n] assms by auto
  have mj: "m \<le> j" using j assms by linarith
  then have p: "(2::real) ^ j = 2 ^ m * 2 ^ (j - m)" by (simp flip: power_add)
  have "(of_int k / 2 ^ m) * 2 ^ j \<le> x * 2 ^ j"
    using assms(4) by (rule mult_right_mono) simp
  moreover have "(of_int k / 2 ^ m) * 2 ^ j = real_of_int (k * 2 ^ (j - m))" by (simp add: p)
  ultimately have "real_of_int (k * 2 ^ (j - m)) \<le> x * 2 ^ j" by simp
  then have "k * 2 ^ (j - m) \<le> round_half_even (x * 2 ^ j)" by (rule round_half_even_ge)
  then have "real_of_int (k * 2 ^ (j - m)) \<le> of_int (round_half_even (x * 2 ^ j))"
    by (simp only: of_int_le_iff)
  then have "of_int (k * 2 ^ (j - m)) / 2 ^ j \<le> round_binary64 x"
    unfolding r by (simp add: divide_right_mono)
  moreover have "real_of_int (k * 2 ^ (j - m)) / 2 ^ j = of_int k / 2 ^ m" by (simp add: p)
  ultimately show ?thesis by simp
qed


lemma round_binary64_of_int: "\<bar>n\<bar> < 2 ^ 53 \<Longrightarrow> round_binary64 (of_int n) = of_int n"
proof -
  assume a: "\<bar>n\<bar> < 2 ^ 53"
  then have b: "\<bar>real_of_int n\<bar> < 2 ^ 53"
    by (metis of_int_abs of_int_less_numeral_power_cancel_iff)
  have "round_binary64 (of_int n) \<le> of_int n / 2 ^ 0"
    using b by (intro round_binary64_le [where n = 53]) auto
  moreover have "of_int n / 2 ^ 0 \<le> round_binary64 (of_int n)"
    using b by (intro round_binary64_ge [where n = 53]) auto
  ultimately show ?thesis by simp
qed

lemma float_of_int_exact: "\<bar>n\<bar> < 2 ^ 53 \<Longrightarrow> float_of_int n = Inr (Finite (of_int n))"
proof -
  assume a: "\<bar>n\<bar> < 2 ^ 53"
  then have b: "\<bar>real_of_int n\<bar> < 2 ^ 53"
    by (metis of_int_abs of_int_less_numeral_power_cancel_iff)
  have "(2::real) ^ 53 < 2 ^ 1024" by (rule power_strict_increasing) auto
  then have "\<not> 2 ^ 1024 \<le> real_of_int n" "\<not> real_of_int n \<le> - (2 ^ 1024)" using b by linarith+
  then show ?thesis
    using a by (simp add: float_of_int_def round_result_def round_binary64_of_int)
qed

lemma float_mul_finite:
  assumes "\<bar>a * b\<bar> < 2 ^ 53"
  shows "float_mul (Finite a) (Finite b) = Finite (round_binary64 (a * b))"
proof -
  have big: "(2::real) ^ 53 < 2 ^ 1024" by (rule power_strict_increasing) auto
  have "a * b \<le> of_int (2 ^ 53) / 2 ^ 0" using assms by simp
  then have "round_binary64 (a * b) \<le> of_int (2 ^ 53) / 2 ^ 0"
    using assms by (intro round_binary64_le [where n = 53]) auto
  then have hi: "round_binary64 (a * b) < 2 ^ 1024" using big by simp
  have "of_int (- (2 ^ 53)) / 2 ^ 0 \<le> a * b" using assms by simp
  then have "of_int (- (2 ^ 53)) / 2 ^ 0 \<le> round_binary64 (a * b)"
    using assms by (intro round_binary64_ge [where n = 53]) auto
  then have lo: "- (2 ^ 1024) < round_binary64 (a * b)" using big by simp
  show ?thesis using hi lo by (simp add: float_mul_def round_result_def)
qed

lemma phase_durations_nonneg:
  assumes "6 \<le> c" "c < 2 ^ 53" "0 \<le> r" "r \<le> 1"
  shows "phase_durations c (Finite r) =
           Inr (\<lfloor>round_binary64 (of_int (c - 6) * r)\<rfloor>,
                c - 6 - \<lfloor>round_binary64 (of_int (c - 6) * r)\<rfloor>)"
proof -
  define g where "g = c - 6"
  have g: "0 \<le> g" "g < 2 ^ 53" using assms by (simp_all add: g_def)
  then have "\<bar>g\<bar> < 2 ^ 53" by simp
  then have conv: "float_of_int g = Inr (Finite (of_int g))" by (rule float_of_int_exact)
  have rg: "real_of_int g < 2 ^ 53" using g(2) by (metis of_int_less_numeral_power_cancel_iff)
  have x0: "0 \<le> of_int g * r" using g assms by simp
  have "of_int g * r \<le> of_int g * 1" using g assms by (intro mult_left_mono) auto
  then have x1: "\<bar>of_int g * r\<bar> < 2 ^ 53" using x0 rg by simp
  then have mul: "float_mul (Finite (of_int g)) (Finite r) = Finite (round_binary64 (of_int g * r))"
    by (rule float_mul_finite)
  have "of_int 0 / 2 ^ 0 \<le> round_binary64 (of_int g * r)"
    using x1 x0 by (intro round_binary64_ge [where n = 53]) auto
  then have "0 \<le> round_binary64 (of_int g * r)" by simp
  then show ?thesis
    using conv mul by (simp add: phase_durations_def py_int_def Let_def flip: g_def)
qed

lemma literal_03: "round_binary64 (3 / 10) = 5404319552844595 / 2 ^ 54"
  by code_simp

lemma literal_07: "round_binary64 (7 / 10) = 6305039478318694 / 2 ^ 53"
  by code_simp

lemma literal_05: "round_binary64 (1 / 2) = 1 / 2"
  by code_simp

lemma ratio_range_bounds: "ns_green_ratio_in_range r \<Longrightarrow> 2 / 7 \<le> r \<and> r \<le> 7 / 10"
  by (simp add: ns_green_ratio_in_range_def literal_03 literal_07)

lemma phase_durations_in_range:
  assumes "cycle_length_in_range c" "ns_green_ratio_in_range r"
  shows "\<exists>ns ew. phase_durations c (Finite r) = Inr (ns, ew) \<and> ns + ew + 6 = c \<and> 4 \<le> ns \<and> 5 \<le> ew"
proof -
  define g where "g = c - 6"
  define p where "p = round_binary64 (of_int g * r)"
  have g: "14 \<le> g" "g \<le> 114" using assms(1) by (simp_all add: g_def cycle_length_in_range_def)
  have r: "2 / 7 \<le> r" "r \<le> 7 / 10" using ratio_range_bounds [OF assms(2)] by simp_all
  have rg: "14 \<le> real_of_int g" "real_of_int g \<le> 114" using g by simp_all
  have "14 * (2 / 7) \<le> of_int g * r" using rg r by (intro mult_mono) auto
  then have x_lo: "4 \<le> of_int g * r" by simp
  have "of_int g * r \<le> of_int g * (7 / 10)" using rg r by (intro mult_left_mono) auto
  moreover have "of_int g * (7 / 10) \<le> real_of_int (16 * g - 65) / 2 ^ 4" using rg by simp
  ultimately have x_up: "of_int g * r \<le> of_int (16 * g - 65) / 2 ^ 4" by linarith
  have x_abs: "\<bar>of_int g * r\<bar> < 2 ^ 7" using x_lo x_up rg by simp
  have "of_int 4 / 2 ^ 0 \<le> p"
    unfolding p_def using x_abs x_lo by (intro round_binary64_ge [where n = 7]) auto
  then have p_lo: "4 \<le> p" by simp
  have p_up: "p \<le> of_int (16 * g - 65) / 2 ^ 4"
    unfolding p_def using x_abs x_up by (intro round_binary64_le [where n = 7]) auto
  then have p_lt: "p < of_int (g - 4)" by simp
  have pd: "phase_durations c (Finite r) = Inr (\<lfloor>p\<rfloor>, g - \<lfloor>p\<rfloor>)"
    unfolding p_def g_def using assms(1) r
    by (intro phase_durations_nonneg) (auto simp: cycle_length_in_range_def)
  have "4 \<le> \<lfloor>p\<rfloor>" using p_lo by (simp add: le_floor_iff)
  moreover have "\<lfloor>p\<rfloor> < g - 4" using p_lt by (simp only: floor_less_iff)
  ultimately show ?thesis using pd by (auto simp: g_def)
qed

lemma durations_tl_document:
  "durations (tl_document ns ew) = replicate 9 [str_int ns, ''3'', str_int ew, ''3'']"
  by (simp add: durations_def tl_document_def tl_logic_def upt_conv_Cons eval_nat_numeral)

section \<open>The stepping loops under the call counter\<close>

lemma counting_simps [simp]:
  "simulationStep (counting sim) (s, n) = (simulationStep sim s, Suc n)"
  "getMinExpectedNumber (counting sim) (s, n) = getMinExpectedNumber sim s"
  "close (counting sim) (s, n) = close sim s"
  "start (counting sim) cmd fs = (start sim cmd fs, 0)"
  by (simp_all add: counting_def)

lemma objective_function_loop_counting:
  "objective_function_loop (counting sim) step (s, n) =
     (if step < MAX_SIM_STEPS then
        (if getMinExpectedNumber sim (simulationStep sim s) = 0 \<and> 100 < step
         then (simulationStep sim s, Suc n)
         else objective_function_loop (counting sim) (step + 1) (simulationStep sim s, Suc n))
      else (s, n))"
  by (subst objective_function_loop.simps) (simp add: Let_def)

lemma run_single_evaluation_loop_counting:
  "run_single_evaluation_loop (counting sim) step (s, n) =
     (if 0 < getMinExpectedNumber sim s \<and> step < MAX_SIM_STEPS
      then run_single_evaluation_loop (counting sim) (step + 1) (simulationStep sim s, Suc n)
      else (s, n))"
  by (subst run_single_evaluation_loop.simps) simp

lemma objective_function_loop_calls_le:
  "step \<le> MAX_SIM_STEPS \<Longrightarrow>
   snd (objective_function_loop (counting sim) step (s, n)) \<le> n + (MAX_SIM_STEPS - step)"
proof (induction "counting sim" step "(s, n)" arbitrary: s n rule: objective_function_loop.induct)
  case (1 step)
  show ?case
  proof (cases "step < MAX_SIM_STEPS \<and>
      \<not> (getMinExpectedNumber sim (simulationStep sim s) = 0 \<and> 100 < step)")
    case False
    then show ?thesis by (subst objective_function_loop_counting) auto
  next
    case True
    then have "snd (objective_function_loop (counting sim) (step + 1) (simulationStep sim s, Suc n))
              \<le> Suc n + (MAX_SIM_STEPS - (step + 1))"
      by (intro "1.hyps") auto
    moreover have "Suc n + (MAX_SIM_STEPS - (step + 1)) = n + (MAX_SIM_STEPS - step)"
      using True by arith
    ultimately show ?thesis using True by (subst objective_function_loop_counting) auto
  qed
qed

lemma objective_function_loop_calls_mono:
  "n \<le> snd (objective_function_loop (counting sim) step (s, n))"
proof (induction "counting sim" step "(s, n)" arbitrary: s n rule: objective_function_loop.induct)
  case (1 step)
  show ?case
  proof (cases "step < MAX_SIM_STEPS \<and>
      \<not> (getMinExpectedNumber sim (simulationStep sim s) = 0 \<and> 100 < step)")
    case False
    then show ?thesis by (subst objective_function_loop_counting) auto
  next
    case True
    then have "Suc n \<le> snd (objective_function_loop (counting sim) (step + 1) (simulationStep sim s, Suc n))"
      by (intro "1.hyps") auto
    then show ?thesis using True by (subst objective_function_loop_counting) auto
  qed
qed

lemma objective_function_loop_calls_ge:
  "step \<le> 101 \<Longrightarrow>
   n + (102 - step) \<le> snd (objective_function_loop (counting sim) step (s, n))"
proof (induction "counting sim" step "(s, n)" arbitrary: s n rule: objective_function_loop.induct)
  case (1 step)
  have lt: "step < MAX_SIM_STEPS" using "1.prems" by (simp add: MAX_SIM_STEPS_def)
  show ?case
  proof (cases "step \<le> 100")
    case False
    then have e: "n + (102 - step) = Suc n" using "1.prems" by arith
    have "Suc n \<le> snd (objective_function_loop (counting sim) (step + 1) (simulationStep sim s, Suc n))"
      by (rule objective_function_loop_calls_mono)
    then show ?thesis unfolding e using lt by (subst objective_function_loop_counting) auto
  next
    case True
    then have "Suc n + (102 - (step + 1))
            \<le> snd (objective_function_loop (counting sim) (step + 1) (simulationStep sim s, Suc n))"
      using lt by (intro "1.hyps") auto
    moreover have "Suc n + (102 - (step + 1)) = n + (102 - step)" using True by arith
    ultimately show ?thesis using lt True by (subst objective_function_loop_counting) auto
  qed
qed

lemma objective_function_loop_calls_full:
  "\<forall>s. getMinExpectedNumber sim s \<noteq> 0 \<Longrightarrow> step \<le> MAX_SIM_STEPS \<Longrightarrow>
   snd (objective_function_loop (counting sim) step (s, n)) = n + (MAX_SIM_STEPS - step)"
proof (induction "counting sim" step "(s, n)" arbitrary: s n rule: objective_function_loop.induct)
  case (1 step)
  show ?case
  proof (cases "step < MAX_SIM_STEPS")
    case False
    then show ?thesis using "1.prems" by (subst objective_function_loop_counting) auto
  next
    case True
    then have "snd (objective_function_loop (counting sim) (step + 1) (simulationStep sim s, Suc n))
              = Suc n + (MAX_SIM_STEPS - (step + 1))"
      using "1.prems" by (intro "1.hyps") auto
    moreover have "Suc n + (MAX_SIM_STEPS - (step + 1)) = n + (MAX_SIM_STEPS - step)"
      using True by arith
    ultimately show ?thesis using True "1.prems" by (subst objective_function_loop_counting) auto
  qed
qed

lemma run_single_evaluation_loop_calls_le:
  "step \<le> MAX_SIM_STEPS \<Longrightarrow>
   snd (run_single_evaluation_loop (counting sim) step (s, n)) \<le> n + (MAX_SIM_STEPS - step)"
proof (induction "counting sim" step "(s, n)" arbitrary: s n rule: run_single_evaluation_loop.induct)
  case (1 step)
  show ?case
  proof (cases "0 < getMinExpectedNumber sim s \<and> step < MAX_SIM_STEPS")
    case False
    then show ?thesis by (subst run_single_evaluation_loop_counting) auto
  next
    case True
    then have "snd (run_single_evaluation_loop (counting sim) (step + 1) (simulationStep sim s, Suc n))
              \<le> Suc n + (MAX_SIM_STEPS - (step + 1))"
      by (intro "1.hyps") auto
    moreover have "Suc n + (MAX_SIM_STEPS - (step + 1)) = n + (MAX_SIM_STEPS - step)"
      using True by arith
    ultimately show ?thesis using True by (subst run_single_evaluation_loop_counting) auto
  qed
qed

lemma run_single_evaluation_loop_calls_full:
  "\<forall>s. 0 < getMinExpectedNumber sim s \<Longrightarrow> step \<le> MAX_SIM_STEPS \<Longrightarrow>
   snd (run_single_evaluation_loop (counting sim) step (s, n)) = n + (MAX_SIM_STEPS - step)"
proof (induction "counting sim" step "(s, n)" arbitrary: s n rule: run_single_evaluation_loop.induct)
  case (1 step)
  show ?case
  proof (cases "step < MAX_SIM_STEPS")
    case False
    then show ?thesis using "1.prems" by (subst run_single_evaluation_loop_counting) auto
  next
    case True
    then have "snd (run_single_evaluation_loop (counting sim) (step + 1) (simulationStep sim s, Suc n))
              = Suc n + (MAX_SIM_STEPS - (step + 1))"
      using "1.prems" by (intro "1.hyps") auto
    moreover have "Suc n + (MAX_SIM_STEPS - (step + 1)) = n + (MAX_SIM_STEPS - step)"
      using True by arith
    ultimately show ?thesis using True "1.prems" by (subst run_single_evaluation_loop_counting) auto
  qed
qed

text \<open>The observer does not change the run.\<close>

lemma objective_function_loop_fst:
  "fst (objective_function_loop (counting sim) step (s, n)) = objective_function_loop sim step s"
proof (induction "counting sim" step "(s, n)" arbitrary: s n rule: objective_function_loop.induct)
  case (1 step)
  show ?case
  proof (cases "step < MAX_SIM_STEPS \<and>
      \<not> (getMinExpectedNumber sim (simulationStep sim s) = 0 \<and> 100 < step)")
    case False
    then show ?thesis
      by (subst objective_function_loop_counting, subst (2) objective_function_loop.simps)
         (auto simp: Let_def)
  next
    case True
    then have "fst (objective_function_loop (counting sim) (step + 1) (simulationStep sim s, Suc n))
       = objective_function_loop sim (step + 1) (simulationStep sim s)"
      by (intro "1.hyps") auto
    then show ?thesis using True
      by (subst objective_function_loop_counting, subst (2) objective_function_loop.simps)
         (auto simp: Let_def)
  qed
qed

lemma run_single_evaluation_loop_fst:
  "fst (run_single_evaluation_loop (counting sim) step (s, n)) = run_single_evaluation_loop sim step s"
proof (induction "counting sim" step "(s, n)" arbitrary: s n rule: run_single_evaluation_loop.induct)
  case (1 step)
  show ?case
  proof (cases "0 < getMinExpectedNumber sim s \<and> step < MAX_SIM_STEPS")
    case False
    then show ?thesis
      by (subst run_single_evaluation_loop_counting, subst (2) run_single_evaluation_loop.simps) auto
  next
    case True
    then have "fst (run_single_evaluation_loop (counting sim) (step + 1) (simulationStep sim s, Suc n))
       = run_single_evaluation_loop sim (step + 1) (simulationStep sim s)"
      by (intro "1.hyps") auto
    then show ?thesis using True
      by (subst run_single_evaluation_loop_counting, subst (2) run_single_evaluation_loop.simps) auto
  qed
qed

lemma objective_function_loop_idle:
  "\<forall>s. simulationStep sim s = s \<Longrightarrow> objective_function_loop sim step s = s"
proof (induction sim step s rule: objective_function_loop.induct)
  case (1 sim step s)
  then show ?case by (subst objective_function_loop.simps) (auto simp: Let_def)
qed

section \<open>The generator on the search space\<close>

lemma str_nat_not_Nil: "str_nat n \<noteq> []"
  by (subst str_nat.simps) simp

lemma digit_zero: "n < 10 \<Longrightarrow> ''0123456789'' ! n = CHR ''0'' \<Longrightarrow> n = 0"
proof -
  assume n: "n < 10" and c: "''0123456789'' ! n = CHR ''0''"
  have "distinct ''0123456789''" by simp
  then have "(''0123456789'' ! n = ''0123456789'' ! 0) = (n = 0)"
    using n by (intro nth_eq_iff_index_eq) simp_all
  then show "n = 0" using c by simp
qed

lemma str_nat_zero: "str_nat n = ''0'' \<longleftrightarrow> n = 0"
proof (cases "n < 10")
  case True
  then show ?thesis by (subst str_nat.simps) (auto dest: digit_zero)
next
  case False
  have "str_nat (n div 10) @ [''0123456789'' ! (n mod 10)] \<noteq> ''0''"
    using str_nat_not_Nil [of "n div 10"] by (cases "str_nat (n div 10)") auto
  then show ?thesis using False by (subst str_nat.simps) auto
qed

lemma str_int_zero: "str_int i = ''0'' \<longleftrightarrow> i = 0"
  by (auto simp: str_int_def str_nat_zero)

lemma generate_tl_program_in_range:
  assumes "cycle_length_in_range c" "ns_green_ratio_in_range r"
  shows "\<exists>ns ew. generate_tl_program c (Finite r) file_path fs
                    = Inr (fs(file_path \<mapsto> tl_document ns ew))
               \<and> ns + ew + 6 = c \<and> 4 \<le> ns \<and> 5 \<le> ew"
proof -
  obtain ns ew where "phase_durations c (Finite r) = Inr (ns, ew)"
    and "ns + ew + 6 = c" "4 \<le> ns" "5 \<le> ew"
    using phase_durations_in_range [OF assms] by blast
  then show ?thesis by (auto simp: generate_tl_program_def)
qed

text \<open>
  Claim C3. For every integer cycle length from 20 to 120 and every green ratio from 0.3 to
  0.7, \<open>generate_tl_program\<close> returns normally and writes, for each of the nine
  intersections, the durations \<open>ns_green\<close>, 3, \<open>ew_green\<close>, 3, where the two greens are
  integers, neither is negative, and \<open>ns_green + ew_green + 6\<close> (the greens and the two
  yellows of 3 seconds) is the cycle length.
\<close>

theorem green_times_sum_to_cycle_length:
  assumes "cycle_length_in_range cycle_length" "ns_green_ratio_in_range r"
  shows "\<exists>ns ew. generate_tl_program cycle_length (Finite r) file_path fs
                    = Inr (fs(file_path \<mapsto> tl_document ns ew))
               \<and> durations (tl_document ns ew) = replicate 9 [str_int ns, ''3'', str_int ew, ''3'']
               \<and> ns + ew + 6 = cycle_length \<and> ns + ew + 2 * 3 = cycle_length
               \<and> 0 \<le> ns \<and> 0 \<le> ew"
proof -
  obtain ns ew where "generate_tl_program cycle_length (Finite r) file_path fs
                    = Inr (fs(file_path \<mapsto> tl_document ns ew))"
    and "ns + ew + 6 = cycle_length" "4 \<le> ns" "5 \<le> ew"
    using generate_tl_program_in_range [OF assms] by blast
  then show ?thesis using durations_tl_document [of ns ew] by (intro exI [of _ ns] exI [of _ ew]) simp
qed

lemma range_low_corner:
  "cycle_length_in_range 20" "ns_green_ratio_in_range (round_binary64 (3 / 10))"
  by (simp_all add: cycle_length_in_range_def ns_green_ratio_in_range_def literal_03 literal_07)

lemma range_high_corner:
  "cycle_length_in_range 120" "ns_green_ratio_in_range (round_binary64 (7 / 10))"
  by (simp_all add: cycle_length_in_range_def ns_green_ratio_in_range_def literal_03 literal_07)

theorem green_times_sum_to_cycle_length_witness:
  "cycle_length_in_range 20 \<and> ns_green_ratio_in_range (round_binary64 (3 / 10)) \<and>
   (\<exists>ns ew. generate_tl_program 20 (Finite (round_binary64 (3 / 10))) ''temp_tls.add.xml'' Map.empty
                    = Inr [''temp_tls.add.xml'' \<mapsto> tl_document ns ew]
               \<and> durations (tl_document ns ew) = replicate 9 [str_int ns, ''3'', str_int ew, ''3'']
               \<and> ns + ew + 6 = 20 \<and> ns + ew + 2 * 3 = 20
               \<and> 0 \<le> ns \<and> 0 \<le> ew)"
  using green_times_sum_to_cycle_length [OF range_low_corner, of "''temp_tls.add.xml''" Map.empty]
    range_low_corner by simp

text \<open>
  Claim C9. For every integer cycle length from 20 to 120 and every green ratio from 0.3 to
  0.7, the durations that \<open>generate_tl_program\<close> writes have \<open>ns_green\<close> at least 4 and
  \<open>ew_green\<close> at least 5: no green phase of a written plan has the duration \<open>0\<close>.
\<close>

theorem green_times_strictly_positive:
  assumes "cycle_length_in_range cycle_length" "ns_green_ratio_in_range r"
  shows "\<exists>ns ew. generate_tl_program cycle_length (Finite r) file_path fs
                    = Inr (fs(file_path \<mapsto> tl_document ns ew))
               \<and> durations (tl_document ns ew) = replicate 9 [str_int ns, ''3'', str_int ew, ''3'']
               \<and> 4 \<le> ns \<and> 5 \<le> ew \<and> str_int ns \<noteq> ''0'' \<and> str_int ew \<noteq> ''0''"
proof -
  obtain ns ew where "generate_tl_program cycle_length (Finite r) file_path fs
                    = Inr (fs(file_path \<mapsto> tl_document ns ew))"
    and "4 \<le> ns" "5 \<le> ew"
    using generate_tl_program_in_range [OF assms] by blast
  then show ?thesis using durations_tl_document [of ns ew]
    by (intro exI [of _ ns] exI [of _ ew]) (simp add: str_int_zero)
qed

theorem green_times_strictly_positive_witness:
  "cycle_length_in_range 120 \<and> ns_green_ratio_in_range (round_binary64 (7 / 10)) \<and>
   (\<exists>ns ew. generate_tl_program 120 (Finite (round_binary64 (7 / 10))) ''temp_tls.add.xml'' Map.empty
                    = Inr [''temp_tls.add.xml'' \<mapsto> tl_document ns ew]
               \<and> durations (tl_document ns ew) = replicate 9 [str_int ns, ''3'', str_int ew, ''3'']
               \<and> 4 \<le> ns \<and> 5 \<le> ew \<and> str_int ns \<noteq> ''0'' \<and> str_int ew \<noteq> ''0'')"
  using green_times_strictly_positive [OF range_high_corner, of "''temp_tls.add.xml''" Map.empty]
    range_high_corner by simp

section \<open>The two examples of the specification\<close>

lemma phase_durations_21_03: "phase_durations 21 (Finite (round_binary64 (3 / 10))) = Inr (4, 11)"
proof -
  have "\<lfloor>round_binary64 (81064793292668925 / 18014398509481984)\<rfloor> = 4" by code_simp
  then show ?thesis
    using phase_durations_nonneg [of 21 "round_binary64 (3 / 10)"]
    by (simp add: literal_03)
qed

lemma phase_durations_60_05: "phase_durations 60 (Finite (round_binary64 (1 / 2))) = Inr (27, 27)"
proof -
  have "round_binary64 27 = 27" using round_binary64_of_int [of 27] by simp
  then show ?thesis
    using phase_durations_nonneg [of 60 "round_binary64 (1 / 2)"]
    by (simp add: literal_05)
qed

lemma str_int_27: "str_int 27 = ''27''"
  by (simp add: str_int_def str_nat.simps)

text \<open>
  Claim C4 says that the north-south green is the floor of the product of \<open>green_time\<close>
  and \<open>ns_green_ratio\<close>. The code multiplies in binary64 and truncates with \<open>int\<close>: the
  product is rounded to the nearest float before its fraction is cut off, and a negative
  product is cut towards zero. For a cycle length of 26 and the float \<open>0.3\<close> the exact
  product lies just below 6, with floor 5, and the code computes 6. For 56 and \<open>0.58\<close> the
  product of the decimal fractions is 29 and the code computes 28, the float \<open>0.58\<close> being
  below the decimal. For a cycle length of 5 and \<open>0.5\<close> the floor is \<open>-1\<close> and the code
  computes 0.
\<close>

theorem floor_of_exact_product_counterexample:
  "phase_durations 26 (Finite (round_binary64 (3 / 10))) = Inr (6, 14)
   \<and> \<lfloor>real_of_int (26 - 6) * round_binary64 (3 / 10)\<rfloor> = 5
   \<and> phase_durations 56 (Finite (round_binary64 (58 / 100))) = Inr (28, 22)
   \<and> \<lfloor>real_of_int (56 - 6) * (58 / 100)\<rfloor> = 29
   \<and> phase_durations 5 (Finite (1 / 2)) = Inr (0, - 1)
   \<and> \<lfloor>real_of_int (5 - 6) * (1 / 2)\<rfloor> = - 1"
proof -
  have l58: "round_binary64 (29 / 50) = 5224175567749775 / 2 ^ 53" by code_simp
  have p26: "round_binary64 (27021597764222975 / 4503599627370496) = 6" by code_simp
  have p56: "\<lfloor>round_binary64 (130604389193744375 / 4503599627370496)\<rfloor> = 28" by code_simp
  have a: "phase_durations 26 (Finite (round_binary64 (3 / 10))) = Inr (6, 14)"
    using phase_durations_nonneg [of 26 "round_binary64 (3 / 10)"] p26
    by (simp add: literal_03)
  have b: "phase_durations 56 (Finite (round_binary64 (58 / 100))) = Inr (28, 22)"
    using phase_durations_nonneg [of 56 "round_binary64 (58 / 100)"] p56
    by (simp add: l58)
  have m: "round_binary64 (- (1 / 2)) = - (1 / 2)" by code_simp
  have ce: "\<lceil>- (1 / 2) :: real\<rceil> = 0" by (simp add: ceiling_eq_iff)
  have c: "phase_durations 5 (Finite (1 / 2)) = Inr (0, - 1)"
    using float_of_int_exact [of "- 1"] float_mul_finite [of "- 1" "1 / 2"] m ce
    by (simp add: phase_durations_def py_int_def)
  show ?thesis using a b c by (simp add: literal_03)
qed

text \<open>
  Claim C4, amended. For a cycle length from 6 to below \<open>2 ^ 53\<close> and a ratio from 0 to 1, with
  \<open>green_time = cycle_length - 6\<close>, the north-south green is the floor of the binary64
  product \<open>green_time * ns_green_ratio\<close>, which is the exact product rounded to the
  nearest float, and the east-west green is \<open>green_time\<close> minus the north-south green, so
  the part cut off goes to the east-west phase. A cycle length of 21 with the ratio \<open>0.3\<close>
  gives 4 and 11, and a cycle length of 60 with the ratio \<open>0.5\<close> gives the durations 27,
  3, 27, 3 at every intersection.
\<close>

theorem ns_green_floor_ew_remainder:
  assumes "6 \<le> cycle_length" "cycle_length < 2 ^ 53" "0 \<le> r" "r \<le> 1"
  shows "phase_durations cycle_length (Finite r) =
           Inr (\<lfloor>round_binary64 (of_int (cycle_length - 6) * r)\<rfloor>,
                (cycle_length - 6) - \<lfloor>round_binary64 (of_int (cycle_length - 6) * r)\<rfloor>)
         \<and> phase_durations 21 (Finite (round_binary64 (3 / 10))) = Inr (4, 11)
         \<and> generate_tl_program 60 (Finite (round_binary64 (1 / 2))) file_path fs
             = Inr (fs(file_path \<mapsto> tl_document 27 27))
         \<and> durations (tl_document 27 27) = replicate 9 [''27'', ''3'', ''27'', ''3'']"
  using phase_durations_nonneg [OF assms] phase_durations_21_03 phase_durations_60_05
    durations_tl_document [of 27 27]
  by (simp add: generate_tl_program_def str_int_27)

theorem ns_green_floor_ew_remainder_witness:
  "(6::int) \<le> 21 \<and> (21::int) < 2 ^ 53 \<and> 0 \<le> round_binary64 (3 / 10) \<and> round_binary64 (3 / 10) \<le> 1
   \<and> \<lfloor>round_binary64 (of_int (21 - 6) * round_binary64 (3 / 10))\<rfloor> = 4
   \<and> phase_durations 21 (Finite (round_binary64 (3 / 10))) = Inr (4, 15 - 4)"
proof -
  have h: "(6::int) \<le> 21" "(21::int) < 2 ^ 53" "0 \<le> round_binary64 (3 / 10)"
    "round_binary64 (3 / 10) \<le> 1"
    by (simp_all add: literal_03)
  have "\<lfloor>round_binary64 (81064793292668925 / 18014398509481984)\<rfloor> = 4" by code_simp
  then show ?thesis
    using ns_green_floor_ew_remainder [OF h, of "''plan.xml''" Map.empty] h
    by (simp add: literal_03)
qed

section \<open>Float arithmetic on exactly representable values\<close>

lemma round_result_of_int: "\<bar>n\<bar> < 2 ^ 53 \<Longrightarrow> round_result (of_int n) = Finite (of_int n)"
proof -
  assume a: "\<bar>n\<bar> < 2 ^ 53"
  then have b: "\<bar>real_of_int n\<bar> < 2 ^ 53"
    by (metis of_int_abs of_int_less_numeral_power_cancel_iff)
  have "(2::real) ^ 53 < 2 ^ 1024" by (rule power_strict_increasing) auto
  then have "\<not> 2 ^ 1024 \<le> real_of_int n" "\<not> real_of_int n \<le> - (2 ^ 1024)" using b by linarith+
  then show ?thesis using a by (simp add: round_result_def round_binary64_of_int)
qed

lemma float_add_Finite: "float_add (Finite a) (Finite b) = round_result (a + b)"
  by (simp add: float_add_def)

lemma pairwise_sum_short:
  "length a < 8 \<Longrightarrow> pairwise_sum a = foldl float_add (Finite 0) a"
  by (subst pairwise_sum.simps) simp

lemma round_result_small:
  assumes "\<bar>x\<bar> < 2 ^ 53"
  shows "round_result x = Finite (round_binary64 x)"
proof -
  have big: "(2::real) ^ 53 < 2 ^ 1024" by (rule power_strict_increasing) auto
  have "x \<le> of_int (2 ^ 53) / 2 ^ 0" using assms by simp
  then have "round_binary64 x \<le> of_int (2 ^ 53) / 2 ^ 0"
    using assms by (intro round_binary64_le [where n = 53]) auto
  then have hi: "round_binary64 x < 2 ^ 1024" using big by simp
  have "of_int (- (2 ^ 53)) / 2 ^ 0 \<le> x" using assms by simp
  then have "of_int (- (2 ^ 53)) / 2 ^ 0 \<le> round_binary64 x"
    using assms by (intro round_binary64_ge [where n = 53]) auto
  then have lo: "- (2 ^ 1024) < round_binary64 x" using big by simp
  show ?thesis using hi lo by (simp add: round_result_def)
qed

lemma np_mean_single: "\<bar>n\<bar> < 2 ^ 53 \<Longrightarrow> np_mean [of_int n] = Finite (of_int n)"
  by (simp add: np_mean_def pairwise_sum_short float_add_Finite round_result_of_int)

section \<open>The mean of whole seconds\<close>









section \<open>The two reductions of a trip report\<close>

lemma wait_times_Seconds:
  "map waitingTime trips = map Seconds ws \<Longrightarrow> wait_times trips = Inr ws"
  by (induction trips arbitrary: ws) (auto simp: py_float_def)

lemma scenario_score_degenerate:
  "degenerate f \<Longrightarrow> scenario_score f = Inr (Finite 36000)"
  by (cases f)
     (simp_all add: degenerate_def scenario_score_def scenario_score_try_def ET_parse_def
        MAX_SIM_STEPS_def)

lemma run_single_evaluation_result_degenerate:
  "degenerate f \<Longrightarrow> run_single_evaluation_result f = Inr (Finite 3600)"
  by (cases f)
     (simp_all add: degenerate_def run_single_evaluation_result_def
        run_single_evaluation_try_def ET_parse_def MAX_SIM_STEPS_def)

lemma scenario_score_mean:
  assumes "ws \<noteq> []" "map waitingTime (findall ''tripinfo'' tree_root) = map Seconds ws"
  shows "scenario_score (Xml tree_root) = Inr (np_mean ws)"
  using assms wait_times_Seconds [OF assms(2)]
  by (simp add: scenario_score_def scenario_score_try_def ET_parse_def)

lemma wait_times_error:
  "wait_times trips = Inl e \<Longrightarrow> e = TypeError \<or> e = ValueError"
  by (induction trips) (auto simp: py_float_def split: sum.splits waiting_attr.splits)

lemma wait_times_Nil: "wait_times trips = Inr [] \<Longrightarrow> trips = []"
  by (cases trips) (auto split: sum.splits)

lemma reductions_agree:
  "\<not> degenerate f \<Longrightarrow> run_single_evaluation_result f = scenario_score f"
proof (cases f)
  case (Xml tree_root)
  assume "\<not> degenerate f"
  then have ne: "findall ''tripinfo'' tree_root \<noteq> []" using Xml by (simp add: degenerate_def)
  show ?thesis
  proof (cases "wait_times (findall ''tripinfo'' tree_root)")
    case (Inl e)
    then have "e = TypeError \<or> e = ValueError" by (rule wait_times_error)
    then show ?thesis using Xml Inl
      by (auto simp: run_single_evaluation_result_def run_single_evaluation_try_def
        scenario_score_def scenario_score_try_def ET_parse_def)
  next
    case (Inr ws)
    then have "ws \<noteq> []" using ne wait_times_Nil by blast
    then show ?thesis using Xml Inr
      by (simp add: run_single_evaluation_result_def run_single_evaluation_try_def
        scenario_score_def scenario_score_try_def ET_parse_def)
  qed
qed (simp_all add: degenerate_def)







text \<open>
  Claim C6 says that \<open>run_single_evaluation\<close> reduces the report as the Score Extractor
  does but without the penalty branch for a missing, malformed or empty report. The
  function has that branch: for each of the three it returns the fixed value
  \<open>MAX_SIM_STEPS\<close>, which its comment calls a high penalty for failure.
\<close>

theorem run_single_evaluation_penalty_counterexample:
  "run_single_evaluation_result NoFile = Inr (Finite 3600)
   \<and> run_single_evaluation_result NotWellFormed = Inr (Finite 3600)
   \<and> run_single_evaluation_result (Xml []) = Inr (Finite 3600)"
  by (simp add: run_single_evaluation_result_degenerate degenerate_def findall_def)

text \<open>
  Claim C6, amended. \<open>run_single_evaluation\<close> reduces the report in the same shape as the
  Score Extractor, penalty branch included, with the penalty \<open>MAX_SIM_STEPS\<close> in place of
  \<open>MAX_SIM_STEPS * 10\<close>: a degenerate report gives \<open>MAX_SIM_STEPS\<close>, and on every other
  report it returns what the Score Extractor returns, the same mean of the waiting times.
\<close>

theorem run_single_evaluation_result_shape:
  "run_single_evaluation_result f =
     (if degenerate f then Inr (Finite (real MAX_SIM_STEPS)) else scenario_score f)"
  using run_single_evaluation_result_degenerate [of f] reductions_agree [of f]
  by (simp add: MAX_SIM_STEPS_def)

text \<open>
  Claim C10. For a missing, malformed or empty trip report \<open>objective_function\<close> scores
  the scenario as \<open>MAX_SIM_STEPS * 10 = 36000\<close> and \<open>run_single_evaluation\<close> returns
  \<open>MAX_SIM_STEPS = 3600\<close>: the two scores of the same degenerate run differ by a factor of
  ten.
\<close>

theorem penalties_differ_by_factor_ten:
  assumes "degenerate f"
  shows "scenario_score f = Inr (Finite (real (MAX_SIM_STEPS * 10)))
       \<and> real (MAX_SIM_STEPS * 10) = 36000
       \<and> run_single_evaluation_result f = Inr (Finite (real MAX_SIM_STEPS))
       \<and> real MAX_SIM_STEPS = 3600
       \<and> real (MAX_SIM_STEPS * 10) = 10 * real MAX_SIM_STEPS"
  using scenario_score_degenerate [OF assms] run_single_evaluation_result_degenerate [OF assms]
  by (simp add: MAX_SIM_STEPS_def)

theorem penalties_differ_by_factor_ten_witness:
  "degenerate NoFile \<and> scenario_score NoFile = Inr (Finite 36000)
     \<and> run_single_evaluation_result NoFile = Inr (Finite 3600)
   \<and> degenerate NotWellFormed \<and> scenario_score NotWellFormed = Inr (Finite 36000)
     \<and> run_single_evaluation_result NotWellFormed = Inr (Finite 3600)
   \<and> degenerate (Xml []) \<and> scenario_score (Xml []) = Inr (Finite 36000)
     \<and> run_single_evaluation_result (Xml []) = Inr (Finite 3600)"
proof -
  have d: "degenerate NoFile" "degenerate NotWellFormed" "degenerate (Xml [])"
    by (simp_all add: degenerate_def findall_def)
  show ?thesis
    using d penalties_differ_by_factor_ten [OF d(1)] penalties_differ_by_factor_ten [OF d(2)]
      penalties_differ_by_factor_ten [OF d(3)]
    by (simp add: MAX_SIM_STEPS_def)
qed

section \<open>The objective\<close>

lemma float_lt_irrefl: "\<not> float_lt x x"
  by (cases x) (simp_all add: float_lt_def)

lemma float_lt_trans: "float_lt x y \<Longrightarrow> float_lt y z \<Longrightarrow> float_lt x z"
  by (cases x; cases y; cases z) (simp_all add: float_lt_def)

lemma foldl_max_greatest:
  "foldl (\<lambda>m y. if float_lt m y then y else m) x ys \<in> set (x # ys)
   \<and> (\<forall>z\<in>set (x # ys). \<not> float_lt (foldl (\<lambda>m y. if float_lt m y then y else m) x ys) z)"
proof (induction ys rule: rev_induct)
  case Nil
  then show ?case by (simp add: float_lt_irrefl)
next
  case (snoc y ys)
  let ?m = "foldl (\<lambda>m y. if float_lt m y then y else m) x ys"
  show ?case
  proof (cases "float_lt ?m y")
    case True
    have "\<not> float_lt y z" if "z \<in> set (x # ys)" for z
      using that snoc True float_lt_trans [of ?m y z] by blast
    then show ?thesis using True by (auto simp: float_lt_irrefl)
  next
    case False
    then show ?thesis using snoc by auto
  qed
qed

lemma py_max_greatest:
  "xs \<noteq> [] \<Longrightarrow> \<exists>m. py_max xs = Inr m \<and> m \<in> set xs \<and> (\<forall>x\<in>set xs. \<not> float_lt m x)"
proof (cases xs)
  case (Cons x ys)
  then show ?thesis using foldl_max_greatest [of x ys] by (simp add: py_max_def)
qed simp

lemma foldl_max_Finite:
  "foldl (\<lambda>m y. if float_lt m y then y else m) (Finite x) (map Finite ys)
     = Finite (foldl (\<lambda>m y. if m < y then y else m) x ys)"
  by (induction ys arbitrary: x) (simp_all add: float_lt_def)

lemma py_max_Max: "xs \<noteq> [] \<Longrightarrow> py_max (map Finite xs) = Inr (Finite (Max (set xs)))"
proof (cases xs)
  case (Cons x ys)
  have "(\<lambda>m y. if m < y then y else m) = (\<lambda>m y::real. max y m)"
    by (intro ext) (simp add: max_def not_less)
  then have "foldl (\<lambda>m y. if m < y then y else m) x ys = fold max ys x"
    by (simp add: foldl_conv_fold)
  moreover have "Max (set (x # ys)) = fold max ys x" by (rule Max.set_eq_fold)
  ultimately show ?thesis using Cons by (simp add: py_max_def foldl_max_Finite)
qed simp

lemma scenario_loop_scores:
  "map (run_scenario sim fs) cfgs = map Inr scores \<Longrightarrow>
   scenario_loop sim fs cfgs acc = Inr (acc @ scores)"
proof (induction cfgs arbitrary: scores acc)
  case Nil
  then show ?case by simp
next
  case (Cons cfg cfgs)
  then obtain sc rest where s: "scores = sc # rest" by (cases scores) auto
  then have "run_scenario sim fs cfg = Inr sc" "map (run_scenario sim fs) cfgs = map Inr rest"
    using Cons.prems by simp_all
  then show ?case using Cons.IH [of rest "acc @ [sc]"] s by simp
qed

text \<open>
  Claim C1. Whenever the plan is generated and each of the three scenarios yields a score,
  \<open>objective_function\<close> returns the maximum of the three scores, not their average: the
  result is one of the scores and none of them is greater; for finite scores it is their
  maximum as numbers, and for the scores 10, 50 and 20 it is 50.
\<close>

theorem objective_function_returns_maximum:
  assumes "generate_tl_program cycle_length ns_green_ratio ''temp_tls.add.xml'' fs = Inr fs'"
    and "map (run_scenario sim fs') SCENARIOS = map Inr scores"
  shows "length scores = 3
       \<and> (\<exists>m. objective_function sim (cycle_length, ns_green_ratio) fs = Inr m
              \<and> m \<in> set scores \<and> (\<forall>s\<in>set scores. \<not> float_lt m s))
       \<and> (\<forall>xs. scores = map Finite xs \<longrightarrow>
            objective_function sim (cycle_length, ns_green_ratio) fs = Inr (Finite (Max (set xs))))
       \<and> (scores = map Finite [10, 50, 20] \<longrightarrow>
            objective_function sim (cycle_length, ns_green_ratio) fs = Inr (Finite 50))"
proof -
  have len: "length scores = 3"
    using arg_cong [OF assms(2), of length] by (simp add: SCENARIOS_def)
  then have ne: "scores \<noteq> []" by auto
  have "scenario_loop sim fs' SCENARIOS [] = Inr ([] @ scores)"
    using assms(2) by (rule scenario_loop_scores)
  then have obj: "objective_function sim (cycle_length, ns_green_ratio) fs = py_max scores"
    using assms(1) by (simp add: objective_function_def)
  have fin: "objective_function sim (cycle_length, ns_green_ratio) fs = Inr (Finite (Max (set xs)))"
    if "scores = map Finite xs" for xs
    using that ne obj py_max_Max [of xs] by auto
  have "objective_function sim (cycle_length, ns_green_ratio) fs = Inr (Finite 50)"
    if "scores = map Finite [10, 50, 20]"
    using fin [OF that] by simp
  then show ?thesis using len obj fin py_max_greatest [OF ne] by auto
qed

lemma generate_60_05:
  "generate_tl_program 60 (Finite (1 / 2)) file_path fs = Inr (fs(file_path \<mapsto> tl_document 27 27))"
  using phase_durations_60_05 by (simp add: generate_tl_program_def literal_05)

lemma run_scenario_scripted:
  "map (run_scenario scripted_sim fs) SCENARIOS = map Inr (map Finite [10, 50, 20])"
proof -
  have idle: "\<forall>s. simulationStep scripted_sim s = s" by (simp add: scripted_sim_def)
  have "scenario_score (Xml [trip (of_int n)]) = Inr (Finite (of_int n))" if "\<bar>n\<bar> < 2 ^ 53" for n
    using scenario_score_mean [of "[of_int n]" "[trip (of_int n)]"] np_mean_single [OF that]
    by (simp add: findall_def trip_def)
  from this [of 10] this [of 50] this [of 20] show ?thesis
    by (simp add: SCENARIOS_def run_scenario_def objective_function_loop_idle [OF idle]
        sumo_cmd_def) (simp add: scripted_sim_def)
qed

lemma np_mean_10_50_20: "np_mean [10, 50, 20] = Finite (7505999378950827 / 2 ^ 48)"
proof -
  have "round_binary64 (80 / 3) = 7505999378950827 / 2 ^ 48" by code_simp
  then show ?thesis
    using round_result_of_int [of 10] round_result_of_int [of 60] round_result_of_int [of 80]
      round_result_small [of "80 / 3"]
    by (simp add: np_mean_def pairwise_sum_short float_add_Finite)
qed

theorem objective_function_returns_maximum_witness:
  "generate_tl_program 60 (Finite (1 / 2)) ''temp_tls.add.xml'' Map.empty
     = Inr [''temp_tls.add.xml'' \<mapsto> tl_document 27 27]
   \<and> map (run_scenario scripted_sim [''temp_tls.add.xml'' \<mapsto> tl_document 27 27]) SCENARIOS
       = map Inr (map Finite [10, 50, 20])
   \<and> objective_function scripted_sim (60, Finite (1 / 2)) Map.empty = Inr (Finite 50)
   \<and> np_mean [10, 50, 20] \<noteq> Finite 50"
  using objective_function_returns_maximum [OF generate_60_05 run_scenario_scripted,
      of "Map.empty"]
    generate_60_05 [of "''temp_tls.add.xml''" Map.empty]
    run_scenario_scripted [of "[''temp_tls.add.xml'' \<mapsto> tl_document 27 27]"]
  by (simp add: np_mean_10_50_20)

section \<open>Determinism\<close>

lemma str_nat_digits: "str_nat 0 = ''0''" "str_nat (Suc 0) = ''1''" "str_nat 2 = ''2''"
  by (simp_all add: str_nat.simps)

lemma upt3: "[0..<3] = [0, Suc 0, 2]"
  by (simp add: upt_conv_Cons eval_nat_numeral)

lemma tl_document_explicit:
  "tl_document ns ew =
     map (\<lambda>i. tl_logic i ns ew)
       [''J_0_0'', ''J_0_1'', ''J_0_2'', ''J_1_0'', ''J_1_1'', ''J_1_2'',
        ''J_2_0'', ''J_2_1'', ''J_2_2'']"
  unfolding tl_document_def upt3 by (simp add: str_nat_digits)

text \<open>
  Claim C7. The outcome of \<open>generate_tl_program\<close>, the exception or the document found
  at the path afterwards, is the same for the same cycle length and green ratio, whatever
  the path and whatever the files held before; a second call with the same arguments
  changes nothing, and no other file is touched. The document is fixed by the two green
  times that the parameters give: the nine intersections \<open>J_0_0\<close> to \<open>J_2_2\<close> in row
  order, each of type \<open>static\<close> with the program \<open>bo_plan\<close> and the offset \<open>0\<close>, and for
  each the four phases in the order north-south green, north-south yellow, east-west
  green, east-west yellow, with their state strings and the durations \<open>ns_green\<close>, 3,
  \<open>ew_green\<close>, 3.
\<close>

theorem generate_tl_program_deterministic:
  "map_sum id (\<lambda>out. out file_path) (generate_tl_program cycle_length ns_green_ratio file_path fs)
     = map_sum id (\<lambda>out. out file_path')
         (generate_tl_program cycle_length ns_green_ratio file_path' fs')
   \<and> (generate_tl_program cycle_length ns_green_ratio file_path fs = Inr out \<longrightarrow>
        generate_tl_program cycle_length ns_green_ratio file_path out = Inr out
        \<and> (\<forall>p. p \<noteq> file_path \<longrightarrow> out p = fs p)
        \<and> (\<exists>ns ew. phase_durations cycle_length ns_green_ratio = Inr (ns, ew)
             \<and> out file_path =
                 Some (map (\<lambda>i. \<lparr>tl_id = i, tl_type = ''static'', programID = ''bo_plan'',
                                 offset = ''0'',
                                 phases =
                                   [\<lparr>duration = str_int ns, state = ''GGggrrrrGGggrrrr''\<rparr>,
                                    \<lparr>duration = ''3'', state = ''yyyyrrrryyyyrrrr''\<rparr>,
                                    \<lparr>duration = str_int ew, state = ''rrrrGGggrrrrGGgg''\<rparr>,
                                    \<lparr>duration = ''3'', state = ''rrrryyyyrrrryyyy''\<rparr>]\<rparr>)
                         [''J_0_0'', ''J_0_1'', ''J_0_2'', ''J_1_0'', ''J_1_1'', ''J_1_2'',
                          ''J_2_0'', ''J_2_1'', ''J_2_2''])))"
proof (cases "phase_durations cycle_length ns_green_ratio")
  case (Inl e)
  then show ?thesis by (simp add: generate_tl_program_def)
next
  case (Inr d)
  obtain ns ew where d: "d = (ns, ew)" by (cases d)
  have doc: "tl_document ns ew =
      map (\<lambda>i. \<lparr>tl_id = i, tl_type = ''static'', programID = ''bo_plan'', offset = ''0'',
                 phases =
                   [\<lparr>duration = str_int ns, state = ''GGggrrrrGGggrrrr''\<rparr>,
                    \<lparr>duration = ''3'', state = ''yyyyrrrryyyyrrrr''\<rparr>,
                    \<lparr>duration = str_int ew, state = ''rrrrGGggrrrrGGgg''\<rparr>,
                    \<lparr>duration = ''3'', state = ''rrrryyyyrrrryyyy''\<rparr>]\<rparr>)
        [''J_0_0'', ''J_0_1'', ''J_0_2'', ''J_1_0'', ''J_1_1'', ''J_1_2'',
         ''J_2_0'', ''J_2_1'', ''J_2_2'']"
    unfolding tl_document_explicit by (simp add: tl_logic_def)
  have gen: "\<And>p g. generate_tl_program cycle_length ns_green_ratio p g
               = Inr (g(p \<mapsto> tl_document ns ew))"
    using Inr d by (simp add: generate_tl_program_def)
  show ?thesis
    unfolding gen using Inr d doc by auto
qed

lemma states_tl_document:
  "map (\<lambda>tl. map state (phases tl)) (tl_document ns ew)
     = replicate 9 [''GGggrrrrGGggrrrr'', ''yyyyrrrryyyyrrrr'', ''rrrrGGggrrrrGGgg'',
                    ''rrrryyyyrrrryyyy'']"
  by (simp add: tl_document_def tl_logic_def upt_conv_Cons eval_nat_numeral)

lemma ids_tl_document:
  "map tl_id (tl_document ns ew)
     = [''J_0_0'', ''J_0_1'', ''J_0_2'', ''J_1_0'', ''J_1_1'', ''J_1_2'',
        ''J_2_0'', ''J_2_1'', ''J_2_2'']"
  unfolding tl_document_explicit by (simp add: tl_logic_def)

theorem generate_tl_program_deterministic_witness:
  "generate_tl_program 60 (Finite (1 / 2)) ''temp_tls.add.xml'' Map.empty
     = Inr [''temp_tls.add.xml'' \<mapsto> tl_document 27 27]
   \<and> generate_tl_program 60 (Finite (1 / 2)) ''temp_tls.add.xml''
        [''temp_tls.add.xml'' \<mapsto> tl_document 27 27]
     = Inr [''temp_tls.add.xml'' \<mapsto> tl_document 27 27]
   \<and> map_sum id (\<lambda>out. out ''plan_resilient.add.xml'')
        (generate_tl_program 60 (Finite (1 / 2)) ''plan_resilient.add.xml''
           [''plan_resilient.add.xml'' \<mapsto> []])
     = Inr (Some (tl_document 27 27))
   \<and> map tl_id (tl_document 27 27)
     = [''J_0_0'', ''J_0_1'', ''J_0_2'', ''J_1_0'', ''J_1_1'', ''J_1_2'',
        ''J_2_0'', ''J_2_1'', ''J_2_2'']
   \<and> map (\<lambda>tl. map state (phases tl)) (tl_document 27 27)
     = replicate 9 [''GGggrrrrGGggrrrr'', ''yyyyrrrryyyyrrrr'', ''rrrrGGggrrrrGGgg'',
                    ''rrrryyyyrrrryyyy'']
   \<and> durations (tl_document 27 27) = replicate 9 [''27'', ''3'', ''27'', ''3'']"
proof -
  have g: "generate_tl_program 60 (Finite (1 / 2)) ''temp_tls.add.xml'' Map.empty
     = Inr [''temp_tls.add.xml'' \<mapsto> tl_document 27 27]"
    by (rule generate_60_05)
  have i: "generate_tl_program 60 (Finite (1 / 2)) ''temp_tls.add.xml''
        [''temp_tls.add.xml'' \<mapsto> tl_document 27 27]
     = Inr [''temp_tls.add.xml'' \<mapsto> tl_document 27 27]"
    and o: "map_sum id (\<lambda>out. out ''plan_resilient.add.xml'')
        (generate_tl_program 60 (Finite (1 / 2)) ''plan_resilient.add.xml''
           [''plan_resilient.add.xml'' \<mapsto> []])
     = Inr (Some (tl_document 27 27))"
    using generate_tl_program_deterministic [of "''temp_tls.add.xml''" 60 "Finite (1 / 2)" Map.empty
        "''plan_resilient.add.xml''" "[''plan_resilient.add.xml'' \<mapsto> []]"
        "[''temp_tls.add.xml'' \<mapsto> tl_document 27 27]"] g
    by simp_all
  have d: "durations (tl_document 27 27) = replicate 9 [''27'', ''3'', ''27'', ''3'']"
    using durations_tl_document [of 27 27] by (simp add: str_int_27)
  show ?thesis
    using g i o d ids_tl_document [of 27 27] states_tl_document [of 27 27] by simp
qed

section \<open>Episodes\<close>

text \<open>
  Claim C8. Both stepping loops return for every simulator, and neither calls
  \<open>simulationStep\<close> more than \<open>MAX_SIM_STEPS = 3600\<close> times. Nothing else bounds an
  episode: while vehicles remain expected, both loops make exactly 3600 calls.
\<close>

theorem episode_step_calls_bounded:
  "snd (objective_function_loop (counting sim) 0 (s, 0)) \<le> MAX_SIM_STEPS
   \<and> snd (run_single_evaluation_loop (counting sim) 0 (s, 0)) \<le> MAX_SIM_STEPS
   \<and> MAX_SIM_STEPS = 3600
   \<and> ((\<forall>s. 0 < getMinExpectedNumber sim s) \<longrightarrow>
        snd (objective_function_loop (counting sim) 0 (s, 0)) = MAX_SIM_STEPS
        \<and> snd (run_single_evaluation_loop (counting sim) 0 (s, 0)) = MAX_SIM_STEPS)"
proof -
  have a: "snd (objective_function_loop (counting sim) 0 (s, 0)) \<le> MAX_SIM_STEPS"
    using objective_function_loop_calls_le [of 0 sim s 0] by simp
  have b: "snd (run_single_evaluation_loop (counting sim) 0 (s, 0)) \<le> MAX_SIM_STEPS"
    using run_single_evaluation_loop_calls_le [of 0 sim s 0] by simp
  have c: "snd (objective_function_loop (counting sim) 0 (s, 0)) = MAX_SIM_STEPS"
    if "\<forall>s. 0 < getMinExpectedNumber sim s"
  proof -
    have "\<forall>s. getMinExpectedNumber sim s \<noteq> 0" using that by (metis less_irrefl)
    then show ?thesis using objective_function_loop_calls_full [of sim 0 s 0] by simp
  qed
  have d: "snd (run_single_evaluation_loop (counting sim) 0 (s, 0)) = MAX_SIM_STEPS"
    if "\<forall>s. 0 < getMinExpectedNumber sim s"
    using that run_single_evaluation_loop_calls_full [of sim 0 s 0] by simp
  show ?thesis using a b c d by (simp add: MAX_SIM_STEPS_def)
qed

theorem episode_step_calls_bounded_witness:
  "snd (objective_function_loop (counting congested_sim) 0 ((), 0)) = 3600
   \<and> snd (run_single_evaluation_loop (counting congested_sim) 0 ((), 0)) = 3600"
  using episode_step_calls_bounded [of congested_sim "()"]
  by (simp add: congested_sim_def MAX_SIM_STEPS_def)

text \<open>
  Claim C5 says that no episode ends on an empty network before a settling period, in
  either loop. In the loop of \<open>objective_function\<close> the \<open>break\<close> needs \<open>step > 100\<close>, so at
  least 102 steps are made. The loop of \<open>run_single_evaluation\<close> asks the simulator before
  the first step: when no vehicle is expected yet it makes no step at all, and the empty
  report is given the value 3600.
\<close>

theorem final_evaluation_stops_at_step_0:
  "snd (run_single_evaluation_loop (counting late_traffic_sim) 0
          (start late_traffic_sim cmd fs, 0)) = 0
   \<and> run_single_evaluation late_traffic_sim scenario_cfg plan_file fs = Inr (Finite 3600)
   \<and> 102 \<le> snd (objective_function_loop (counting late_traffic_sim) 0
                   (start late_traffic_sim cmd fs, 0))"
proof -
  have "run_single_evaluation_loop (counting late_traffic_sim) 0 (0, 0) = (0, 0)"
    by (subst run_single_evaluation_loop_counting) (simp add: late_traffic_sim_def)
  moreover have "run_single_evaluation_loop late_traffic_sim 0 0 = 0"
    by (subst run_single_evaluation_loop.simps) (simp add: late_traffic_sim_def)
  moreover have "102 \<le> snd (objective_function_loop (counting late_traffic_sim) 0 (0, 0))"
    using objective_function_loop_calls_ge [of 0 0 late_traffic_sim 0] by simp
  moreover have "start late_traffic_sim cmd fs = 0" "\<And>t. close late_traffic_sim t = Xml []"
    by (simp_all add: late_traffic_sim_def)
  ultimately show ?thesis
    by (simp add: run_single_evaluation_def run_single_evaluation_result_degenerate
        degenerate_def findall_def)
qed

end
